theory Spec2Isabelle
  imports Main "HOL-Library.Word"
begin

section \<open>The expression evaluator of the simple debugger (expr.c)\<close>

text \<open>
  The file \<^verbatim>\<open>nemu/src/monitor/sdb/expr.c\<close> turns the text of an expression into a
  machine word: a tokenizer driven by an ordered table of POSIX regular expressions, a
  parenthesis check, a main-operator search and a recursive evaluator over index ranges
  of the token array. The definitions below follow the C functions one by one and keep
  their names.

  A call of the C code can end in three ways, and the model keeps them apart:
  it returns normally (\<open>Inr\<close>), it stops in a failed \<^verbatim>\<open>Assert\<close>/\<^verbatim>\<open>assert\<close>
  (\<open>Inl Assertion_failed\<close>), or it runs into behaviour that C leaves undefined, such
  as an integer division by zero (\<open>Inl Undefined_behaviour\<close>).
\<close>

datatype fault = Assertion_failed | Undefined_behaviour

subsection \<open>Token kinds\<close>

text \<open>
  A token kind is a C \<^verbatim>\<open>int\<close>: either a value of the anonymous enumeration, which
  starts at 256, or the character code of a one-character operator.
\<close>

definition TK_NOTYPE :: int where "TK_NOTYPE = 256"
definition TK_EQ :: int where "TK_EQ = 257"
definition TK_UINT :: int where "TK_UINT = 258"
definition TK_HEX :: int where "TK_HEX = 259"
definition TK_NE :: int where "TK_NE = 260"
definition TK_AND :: int where "TK_AND = 261"
definition TK_REG :: int where "TK_REG = 262"
definition TK_DEREF :: int where "TK_DEREF = 263"
definition TK_NEG :: int where "TK_NEG = 264"

definition ch :: "char \<Rightarrow> int" where
  \<comment> \<open>a C character constant such as \<^verbatim>\<open>'+'\<close>, of type \<^verbatim>\<open>int\<close>\<close>
  "ch c = of_char c"

lemmas tk_defs =
  TK_NOTYPE_def TK_EQ_def TK_UINT_def TK_HEX_def TK_NE_def TK_AND_def TK_REG_def
  TK_DEREF_def TK_NEG_def ch_def

subsection \<open>Regular expressions and \<^verbatim>\<open>regexec\<close>\<close>

text \<open>
  The rule table holds POSIX extended regular expressions, compiled by \<^verbatim>\<open>regcomp\<close>
  and run by \<^verbatim>\<open>regexec\<close>. Both belong to the C library. The patterns are written
  here as syntax trees; \<open>Zero\<close>, \<open>One\<close> and \<open>Star\<close> do not occur in the table and
  only arise while matching.
\<close>

datatype bracket_item = Single char | Range char char

datatype regex =
    Zero
  | One
  | Lit char
  | Bracket "bracket_item list"
  | Seq regex regex
  | Alt regex regex
  | Plus regex
  | Star regex

fun in_item :: "char \<Rightarrow> bracket_item \<Rightarrow> bool" where
  "in_item c (Single d) = (c = d)"
| "in_item c (Range lo hi) = ((of_char lo :: nat) \<le> of_char c \<and> (of_char c :: nat) \<le> of_char hi)"

fun nullable :: "regex \<Rightarrow> bool" where
  "nullable Zero = False"
| "nullable One = True"
| "nullable (Lit c) = False"
| "nullable (Bracket its) = False"
| "nullable (Seq r s) = (nullable r \<and> nullable s)"
| "nullable (Alt r s) = (nullable r \<or> nullable s)"
| "nullable (Plus r) = nullable r"
| "nullable (Star r) = True"

fun seq :: "regex \<Rightarrow> regex \<Rightarrow> regex" where
  "seq Zero s = Zero"
| "seq One s = s"
| "seq r s = Seq r s"

fun alt :: "regex \<Rightarrow> regex \<Rightarrow> regex" where
  "alt Zero s = s"
| "alt r Zero = r"
| "alt r s = Alt r s"

text \<open>\<open>deriv c r\<close> matches what is left of a match of \<open>r\<close> after the character \<open>c\<close>.\<close>

fun deriv :: "char \<Rightarrow> regex \<Rightarrow> regex" where
  "deriv c Zero = Zero"
| "deriv c One = Zero"
| "deriv c (Lit d) = (if c = d then One else Zero)"
| "deriv c (Bracket its) = (if list_ex (in_item c) its then One else Zero)"
| "deriv c (Seq r s) =
     (if nullable r then alt (seq (deriv c r) s) (deriv c s) else seq (deriv c r) s)"
| "deriv c (Alt r s) = alt (deriv c r) (deriv c s)"
| "deriv c (Plus r) = seq (deriv c r) (Star r)"
| "deriv c (Star r) = seq (deriv c r) (Star r)"

text \<open>
  \<open>longest_from r s n best\<close> reads \<open>s\<close> from the left, \<open>n\<close> characters being already
  consumed, and returns the greatest length at which the pattern is matched (\<open>best\<close>
  is the greatest one seen so far).
\<close>

fun longest_from :: "regex \<Rightarrow> string \<Rightarrow> int \<Rightarrow> int option \<Rightarrow> int option" where
  "longest_from r [] n best = (if nullable r then Some n else best)"
| "longest_from r (c # cs) n best =
     (if r = Zero then best
      else longest_from (deriv c r) cs (n + 1) (if nullable r then Some n else best))"

definition regexec :: "regex \<Rightarrow> string \<Rightarrow> int option" where
  \<comment> \<open>\<^verbatim>\<open>regexec(&re, s, 1, &pmatch, 0) == 0 && pmatch.rm_so == 0\<close>: POSIX reports the
      leftmost match and, among those, the longest; so the test holds exactly when some
      prefix of \<open>s\<close> matches, and \<^verbatim>\<open>pmatch.rm_eo\<close> is then the length of the longest
      such prefix, returned here.\<close>
  "regexec r s = longest_from r s 0 None"

fun lits :: "string \<Rightarrow> regex" where
  "lits [] = One"
| "lits [c] = Lit c"
| "lits (c # cs) = Seq (Lit c) (lits cs)"

fun alts :: "regex list \<Rightarrow> regex" where
  "alts [] = Zero"
| "alts [r] = r"
| "alts (r # rs) = Alt r (alts rs)"

subsection \<open>The rule table\<close>

record rule =
  regex :: regex
  token_type :: int

definition hex_digits :: "bracket_item list" where
  \<comment> \<open>\<^verbatim>\<open>[0-9AaBbCcDdEeFf]\<close>\<close>
  "hex_digits = Range CHR ''0'' CHR ''9'' # map Single ''AaBbCcDdEeFf''"

definition reg_names :: regex where
  \<comment> \<open>\<^verbatim>\<open>(\$0|ra|sp|gp|tp|t[0-6]|s[0-9]|s10|s11|a[0-7])\<close>\<close>
  "reg_names = alts
     [lits ''$0'', lits ''ra'', lits ''sp'', lits ''gp'', lits ''tp'',
      Seq (Lit CHR ''t'') (Bracket [Range CHR ''0'' CHR ''6'']),
      Seq (Lit CHR ''s'') (Bracket [Range CHR ''0'' CHR ''9'']),
      lits ''s10'', lits ''s11'',
      Seq (Lit CHR ''a'') (Bracket [Range CHR ''0'' CHR ''7''])]"

definition rules :: "rule list" where
  "rules =
    [\<lparr>regex = Plus (Lit CHR '' ''), token_type = TK_NOTYPE\<rparr>,
     \<lparr>regex = Lit CHR ''+'', token_type = ch CHR ''+''\<rparr>,
     \<lparr>regex = lits ''=='', token_type = TK_EQ\<rparr>,
     \<lparr>regex = Lit CHR ''-'', token_type = ch CHR ''-''\<rparr>,
     \<lparr>regex = Lit CHR ''*'', token_type = ch CHR ''*''\<rparr>,
     \<lparr>regex = Lit CHR ''/'', token_type = ch CHR ''/''\<rparr>,
     \<lparr>regex = Lit CHR ''('', token_type = ch CHR ''(''\<rparr>,
     \<lparr>regex = Lit CHR '')'', token_type = ch CHR '')''\<rparr>,
     \<lparr>regex = Seq (lits ''0x'') (Plus (Bracket hex_digits)), token_type = TK_HEX\<rparr>,
     \<lparr>regex = Plus (Bracket [Range CHR ''0'' CHR ''9'']), token_type = TK_UINT\<rparr>,
     \<lparr>regex = lits ''!='', token_type = TK_NE\<rparr>,
     \<lparr>regex = lits ''&&'', token_type = TK_AND\<rparr>,
     \<lparr>regex = Seq (Lit CHR ''$'') reg_names, token_type = TK_REG\<rparr>]"

subsection \<open>The token array\<close>

record Token =
  type :: int
  str :: string

text \<open>
  \<^verbatim>\<open>tokens\<close> and \<^verbatim>\<open>nr_token\<close> are static variables that live from one call to the
  next. The array is a function of the index; the code only uses the slots
  \<open>0 \<dots> 31\<close>.
\<close>

record lexer =
  tokens :: "int \<Rightarrow> Token"
  nr_token :: int

text \<open>
  The \<^verbatim>\<open>for\<close> loop over the rules: the index of the first rule that matches at the
  start of \<open>s\<close>, with the length of its match; \<open>None\<close> stands for \<^verbatim>\<open>i == NR_REGEX\<close>.
\<close>

fun try_rules :: "rule list \<Rightarrow> int \<Rightarrow> string \<Rightarrow> (int \<times> int) option" where
  "try_rules [] i s = None"
| "try_rules (r # rs) i s =
     (case regexec (regex r) s of
        Some substr_len \<Rightarrow> Some (i, substr_len)
      | None \<Rightarrow> try_rules rs (i + 1) s)"

definition is_unary_context :: "lexer \<Rightarrow> bool" where
  \<comment> \<open>the test of lines 139 to 142 on the token appended last\<close>
  "is_unary_context st =
     (let tk = (if nr_token st = 0 then - 1 else type (tokens st (nr_token st - 1)))
      in nr_token st = 0 \<or> tk = ch CHR ''+'' \<or> tk = ch CHR ''-''
         \<or> tk = ch CHR ''*'' \<or> tk = ch CHR ''/'' \<or> tk = ch CHR ''(''
         \<or> tk = TK_EQ \<or> tk = TK_NE \<or> tk = TK_AND)"

definition append_token :: "lexer \<Rightarrow> int \<Rightarrow> fault + lexer" where
  \<comment> \<open>the shared tail of the \<^verbatim>\<open>switch\<close> (lines 134 to 148)\<close>
  "append_token st current_token =
     (if \<not> nr_token st < 32 then Inl Assertion_failed
      else
        let n = nr_token st;
            ty = (if (current_token = ch CHR ''*'' \<or> current_token = ch CHR ''-'')
                     \<and> is_unary_context st
                  then (if current_token = ch CHR ''*'' then TK_DEREF else TK_NEG)
                  else current_token)
        in Inr (st\<lparr>tokens := (tokens st)(n := (tokens st n)\<lparr>type := ty\<rparr>),
                    nr_token := n + 1\<rparr>))"

definition record_token :: "lexer \<Rightarrow> int \<Rightarrow> string \<Rightarrow> fault + lexer" where
  \<comment> \<open>the \<^verbatim>\<open>switch\<close> on the kind of the matched rule; \<open>substr\<close> is the matched text.
      The literal kinds copy the text first and fall through. The copy comes before the
      check of \<^verbatim>\<open>nr_token\<close>, so with a full array it writes behind the array.\<close>
  "record_token st kind substr =
     (if kind = TK_NOTYPE then Inr st
      else if kind = TK_HEX \<or> kind = TK_UINT \<or> kind = TK_REG then
        (if \<not> int (length substr) < 32 then Inl Assertion_failed
         else if \<not> nr_token st < 32 then Inl Undefined_behaviour
         else
           let n = nr_token st
           in append_token (st\<lparr>tokens := (tokens st)(n := (tokens st n)\<lparr>str := substr\<rparr>)\<rparr>)
                kind)
      else if kind = ch CHR ''+'' \<or> kind = ch CHR ''-''
              \<or> kind = ch CHR ''*'' \<or> kind = ch CHR ''/''
              \<or> kind = ch CHR ''('' \<or> kind = ch CHR '')''
              \<or> kind = TK_EQ \<or> kind = TK_NE \<or> kind = TK_AND then
        append_token st kind
      else Inl Assertion_failed)"

text \<open>
  Every pattern of the table needs at least one character, so each round of the
  \<^verbatim>\<open>while\<close> loop moves \<open>position\<close> forward and the loop ends.
\<close>

lemma longest_from_progress:
  "longest_from r s n best = Some m \<Longrightarrow>
     best = Some m \<or> (n \<le> m \<and> (\<not> nullable r \<longrightarrow> n < m))"
proof (induction s arbitrary: r n best)
  case Nil
  then show ?case by (auto split: if_splits)
next
  case (Cons c cs)
  show ?case
  proof (cases "r = Zero")
    case True
    with Cons.prems show ?thesis by simp
  next
    case False
    with Cons.prems
    have "longest_from (deriv c r) cs (n + 1) (if nullable r then Some n else best) = Some m"
      by simp
    from Cons.IH [OF this] show ?thesis
      by (auto split: if_splits)
  qed
qed

lemma regexec_positive:
  "\<not> nullable r \<Longrightarrow> regexec r s = Some m \<Longrightarrow> 0 < m"
  using longest_from_progress [of r s 0 None m] by (simp add: regexec_def)

lemma try_rules_positive:
  "\<forall>r \<in> set rs. \<not> nullable (regex r) \<Longrightarrow> try_rules rs i s = Some (k, m) \<Longrightarrow> 0 < m"
  by (induction rs arbitrary: i) (auto split: option.splits dest: regexec_positive)

lemma rules_not_nullable: "\<forall>r \<in> set rules. \<not> nullable (regex r)"
  by (simp add: rules_def reg_names_def)

lemma rules_positive: "try_rules rules i s = Some (k, m) \<Longrightarrow> 0 < m"
  using try_rules_positive [OF rules_not_nullable] .

text \<open>
  The \<^verbatim>\<open>while\<close> loop of \<^verbatim>\<open>make_token\<close>. The input \<open>e\<close> is the text in front of the
  terminating NUL. The result is the truth value the function returns, with the state.
\<close>

function make_token_loop :: "string \<Rightarrow> int \<Rightarrow> lexer \<Rightarrow> fault + (bool \<times> lexer)" where
  "make_token_loop e position st =
     (if 0 \<le> position \<and> position < int (length e) then
        (case try_rules rules 0 (drop (nat position) e) of
           None \<Rightarrow> Inr (False, st)
         | Some (i, substr_len) \<Rightarrow>
             (case record_token st (token_type (rules ! nat i))
                     (take (nat substr_len) (drop (nat position) e)) of
                Inl f \<Rightarrow> Inl f
              | Inr st' \<Rightarrow> make_token_loop e (position + substr_len) st'))
      else Inr (True, st))"
  by pat_completeness auto
termination
  by (relation "measure (\<lambda>(e, position, st). nat (int (length e) - position))")
     (auto dest: rules_positive)

declare make_token_loop.simps [simp del]

definition make_token :: "lexer \<Rightarrow> string \<Rightarrow> fault + (bool \<times> lexer)" where
  "make_token st e = make_token_loop e 0 (st\<lparr>nr_token := 0\<rparr>)"

subsection \<open>The parenthesis check\<close>

text \<open>The \<^verbatim>\<open>for\<close> loop of \<^verbatim>\<open>is_paired\<close>, from \<open>i\<close> up to \<open>q - 1\<close>.\<close>

function is_paired_loop :: "(int \<Rightarrow> Token) \<Rightarrow> int \<Rightarrow> int \<Rightarrow> int \<Rightarrow> bool" where
  "is_paired_loop tks i q n_left =
     (if i \<le> q - 1 then
        (if type (tks i) = ch CHR ''('' then is_paired_loop tks (i + 1) q (n_left + 1)
         else if type (tks i) = ch CHR '')'' then
           (if n_left - 1 < 0 then False else is_paired_loop tks (i + 1) q (n_left - 1))
         else is_paired_loop tks (i + 1) q n_left)
      else n_left = 0)"
  by pat_completeness auto
termination
  by (relation "measure (\<lambda>(tks, i, q, n_left). nat (q - i))") auto

declare is_paired_loop.simps [simp del]

definition is_paired :: "(int \<Rightarrow> Token) \<Rightarrow> int \<Rightarrow> int \<Rightarrow> bool" where
  "is_paired tks p q =
     (if type (tks p) \<noteq> ch CHR ''('' \<and> type (tks q) \<noteq> ch CHR '')'' then False
      else is_paired_loop tks (p + 1) q 0)"

subsection \<open>The main operator\<close>

definition priority :: "int \<Rightarrow> fault + int" where
  "priority operator =
     (if operator = TK_AND then Inr 0
      else if operator = TK_EQ \<or> operator = TK_NE then Inr 1
      else if operator = ch CHR ''+'' \<or> operator = ch CHR ''-'' then Inr 2
      else if operator = ch CHR ''*'' \<or> operator = ch CHR ''/'' then Inr 3
      else if operator = TK_DEREF \<or> operator = TK_NEG then Inr 4
      else Inl Assertion_failed)"

definition is_operator :: "int \<Rightarrow> bool" where
  \<comment> \<open>the nine \<^verbatim>\<open>case\<close> labels of lines 222 to 230\<close>
  "is_operator operator =
     (operator = ch CHR ''+'' \<or> operator = ch CHR ''-'' \<or> operator = ch CHR ''*''
      \<or> operator = ch CHR ''/'' \<or> operator = TK_EQ \<or> operator = TK_NE
      \<or> operator = TK_AND \<or> operator = TK_DEREF \<or> operator = TK_NEG)"

text \<open>
  The \<^verbatim>\<open>for\<close> loop of \<^verbatim>\<open>find_main_operator_index\<close>. The test of line 231 to 233
  is evaluated from the left: \<^verbatim>\<open>priority\<close> is only called at depth 0 and once a
  candidate has been found.
\<close>

function find_main_operator_loop ::
  "(int \<Rightarrow> Token) \<Rightarrow> int \<Rightarrow> int \<Rightarrow> int \<Rightarrow> int \<Rightarrow> int \<Rightarrow> fault + int" where
  "find_main_operator_loop tks i q main_operator_index main_operator n_left =
     (if i \<le> q then
        (let operator = type (tks i) in
         if operator = ch CHR ''('' then
           find_main_operator_loop tks (i + 1) q main_operator_index main_operator (n_left + 1)
         else if operator = ch CHR '')'' then
           find_main_operator_loop tks (i + 1) q main_operator_index main_operator (n_left - 1)
         else if is_operator operator then
           (if n_left = 0 then
              (if main_operator_index = - 1 then
                 find_main_operator_loop tks (i + 1) q i operator n_left
               else
                 (case priority operator of
                    Inl f \<Rightarrow> Inl f
                  | Inr a \<Rightarrow>
                      (case priority main_operator of
                         Inl f \<Rightarrow> Inl f
                       | Inr b \<Rightarrow>
                           if a \<le> b then find_main_operator_loop tks (i + 1) q i operator n_left
                           else find_main_operator_loop tks (i + 1) q
                                  main_operator_index main_operator n_left)))
            else find_main_operator_loop tks (i + 1) q main_operator_index main_operator n_left)
         else find_main_operator_loop tks (i + 1) q main_operator_index main_operator n_left)
      else Inr main_operator_index)"
  by pat_completeness auto
termination
  by (relation "measure (\<lambda>(tks, i, q, moi, mo, n_left). nat (q + 1 - i))") auto

declare find_main_operator_loop.simps [simp del]

definition find_main_operator_index :: "(int \<Rightarrow> Token) \<Rightarrow> int \<Rightarrow> int \<Rightarrow> fault + int" where
  "find_main_operator_index tks p q = find_main_operator_loop tks p q (- 1) (- 1) 0"

lemma find_main_operator_loop_range:
  "find_main_operator_loop tks i q moi mo n = Inr r \<Longrightarrow> r = moi \<or> (i \<le> r \<and> r \<le> q)"
proof (induction "nat (q + 1 - i)" arbitrary: i moi mo n)
  case 0
  then show ?case
    by (simp add: find_main_operator_loop.simps [of tks i q moi mo n])
next
  case (Suc k)
  from Suc.hyps(2) have le: "i \<le> q" and k: "k = nat (q + 1 - (i + 1))"
    by linarith+
  have next_call: "r = moi' \<or> (i + 1 \<le> r \<and> r \<le> q)"
    if "find_main_operator_loop tks (i + 1) q moi' mo' n' = Inr r" for moi' mo' n'
    using Suc.hyps(1) [OF k that] .
  from Suc.prems le show ?case
    unfolding find_main_operator_loop.simps [of tks i q moi mo n]
    by (auto simp: Let_def split: if_splits sum.splits dest!: next_call)
qed

lemma find_main_operator_index_range:
  "find_main_operator_index tks p q = Inr r \<Longrightarrow> r = - 1 \<or> (p \<le> r \<and> r \<le> q)"
  unfolding find_main_operator_index_def by (rule find_main_operator_loop_range)

subsection \<open>Values\<close>

text \<open>
  Modelled from the spec: the type \<^verbatim>\<open>word_t\<close> is declared outside this file. It is
  the unsigned machine word of the emulated machine; the register names of the
  \<^verbatim>\<open>TK_REG\<close> rule and the 4-byte memory read are those of the 32-bit machine.
\<close>

type_synonym word_t = "32 word"

text \<open>
  The two collaborators of the evaluator, declared outside this file, are parameters.
  \<^verbatim>\<open>isa_reg_str2val(name, success)\<close> is entered with \<^verbatim>\<open>*success\<close> true; the model
  returns its value together with what \<^verbatim>\<open>*success\<close> holds afterwards.
\<close>

record collab =
  isa_reg_str2val :: "string \<Rightarrow> word_t \<times> bool"
  vaddr_read :: "word_t \<Rightarrow> int \<Rightarrow> word_t"

definition digit_value :: "char \<Rightarrow> int option" where
  "digit_value c =
     (let n = (of_char c :: int) in
      if of_char CHR ''0'' \<le> n \<and> n \<le> of_char CHR ''9'' then Some (n - of_char CHR ''0'')
      else if of_char CHR ''a'' \<le> n \<and> n \<le> of_char CHR ''f'' then Some (n - of_char CHR ''a'' + 10)
      else if of_char CHR ''A'' \<le> n \<and> n \<le> of_char CHR ''F'' then Some (n - of_char CHR ''A'' + 10)
      else None)"

text \<open>The value of the longest run of digits of the base at the start of the text.\<close>

fun scan_digits :: "int \<Rightarrow> string \<Rightarrow> int \<Rightarrow> int" where
  "scan_digits base [] acc = acc"
| "scan_digits base (c # cs) acc =
     (case digit_value c of
        None \<Rightarrow> acc
      | Some d \<Rightarrow> if d < base then scan_digits base cs (acc * base + d) else acc)"

definition starts_with_digit :: "int \<Rightarrow> string \<Rightarrow> bool" where
  "starts_with_digit base s =
     (case s of [] \<Rightarrow> False
      | c # cs \<Rightarrow> (case digit_value c of None \<Rightarrow> False | Some d \<Rightarrow> d < base))"

text \<open>
  \<^verbatim>\<open>sscanf(s, "%x", &result)\<close> and \<^verbatim>\<open>sscanf(s, "%d", &result)\<close> of the C library, on
  the texts the rules let through (digits, after \<^verbatim>\<open>0x\<close> for the hexadecimal kind; no
  sign and no blank). Without a digit nothing is stored and \<open>result\<close> keeps its value.
  A number the target type cannot hold is undefined behaviour in C.
\<close>

definition sscanf_x :: "string \<Rightarrow> word_t \<Rightarrow> fault + word_t" where
  "sscanf_x s result =
     (let digits = (if (take 2 s = ''0x'' \<or> take 2 s = ''0X'') \<and> starts_with_digit 16 (drop 2 s)
                    then drop 2 s else s)
      in if \<not> starts_with_digit 16 digits then Inr result
         else if scan_digits 16 digits 0 < 2 ^ 32 then Inr (word_of_int (scan_digits 16 digits 0))
         else Inl Undefined_behaviour)"

definition sscanf_d :: "string \<Rightarrow> word_t \<Rightarrow> fault + word_t" where
  "sscanf_d s result =
     (if \<not> starts_with_digit 10 s then Inr result
      else if scan_digits 10 s 0 < 2 ^ 31 then Inr (word_of_int (scan_digits 10 s 0))
      else Inl Undefined_behaviour)"

subsection \<open>The evaluator\<close>

definition apply_binary :: "int \<Rightarrow> word_t \<Rightarrow> word_t \<Rightarrow> fault + word_t" where
  \<comment> \<open>the last \<^verbatim>\<open>switch\<close> of \<^verbatim>\<open>eval_expr\<close>; \<^verbatim>\<open>/\<close> is the unsigned division of C,
      undefined for the divisor 0\<close>
  "apply_binary operator value_left value_right =
     (if operator = ch CHR ''+'' then Inr (value_left + value_right)
      else if operator = ch CHR ''-'' then Inr (value_left - value_right)
      else if operator = ch CHR ''*'' then Inr (value_left * value_right)
      else if operator = ch CHR ''/'' then
        (if value_right = 0 then Inl Undefined_behaviour else Inr (value_left div value_right))
      else if operator = TK_EQ then Inr (if value_left = value_right then 1 else 0)
      else if operator = TK_NE then Inr (if value_left \<noteq> value_right then 1 else 0)
      else if operator = TK_AND then Inr (if value_left \<noteq> 0 \<and> value_right \<noteq> 0 then 1 else 0)
      else Inl Assertion_failed)"

text \<open>
  \<^verbatim>\<open>eval_expr(p, q, success)\<close> returns a word and leaves a truth value in
  \<^verbatim>\<open>*success\<close> on every path; the model returns the pair of them.
\<close>

function eval_expr :: "collab \<Rightarrow> (int \<Rightarrow> Token) \<Rightarrow> int \<Rightarrow> int \<Rightarrow> fault + (word_t \<times> bool)" where
  "eval_expr c tks p q =
     (if p > q then Inr (0, False)
      else if p = q then
        (if type (tks p) = TK_HEX then
           (case sscanf_x (str (tks p)) 0 of Inl f \<Rightarrow> Inl f | Inr result \<Rightarrow> Inr (result, True))
         else if type (tks p) = TK_UINT then
           (case sscanf_d (str (tks p)) 0 of Inl f \<Rightarrow> Inl f | Inr result \<Rightarrow> Inr (result, True))
         else if type (tks p) = TK_REG then Inr (isa_reg_str2val c (drop 1 (str (tks p))))
         else Inl Assertion_failed)
      else if is_paired tks p q then eval_expr c tks (p + 1) (q - 1)
      else
        (case find_main_operator_index tks p q of
           Inl f \<Rightarrow> Inl f
         | Inr r \<Rightarrow>
             if r < 0 then Inr (0, False)
             else
               (case eval_expr c tks (r + 1) q of
                  Inl f \<Rightarrow> Inl f
                | Inr (value_right, success) \<Rightarrow>
                    if \<not> success then Inr (0, False)
                    else if type (tks r) = TK_DEREF then Inr (vaddr_read c value_right 4, True)
                    else if type (tks r) = TK_NEG then Inr (- value_right, True)
                    else
                      (case eval_expr c tks p (r - 1) of
                         Inl f \<Rightarrow> Inl f
                       | Inr (value_left, success) \<Rightarrow>
                           if \<not> success then Inr (0, False)
                           else
                             (case apply_binary (type (tks r)) value_left value_right of
                                Inl f \<Rightarrow> Inl f
                              | Inr v \<Rightarrow> Inr (v, True))))))"
  by pat_completeness auto
termination
  by (relation "measure (\<lambda>(c, tks, p, q). nat (q + 1 - p))")
     (auto dest: find_main_operator_index_range)

declare eval_expr.simps [simp del]

definition expr :: "collab \<Rightarrow> lexer \<Rightarrow> string \<Rightarrow> fault + (word_t \<times> bool)" where
  \<comment> \<open>the word returned and the final \<^verbatim>\<open>*success\<close>; \<open>st\<close> is what the static variables
      hold when the call starts\<close>
  "expr c st e =
     (case make_token st e of
        Inl f \<Rightarrow> Inl f
      | Inr (ok, st') \<Rightarrow>
          if \<not> ok then Inr (0, False)
          else eval_expr c (tokens st') 0 (nr_token st' - 1))"

subsection \<open>Reading the state\<close>

definition kinds :: "lexer \<Rightarrow> int list" where
  \<comment> \<open>the kinds of the tokens \<open>0 \<dots> nr_token - 1\<close>\<close>
  "kinds st = map (\<lambda>i. type (tokens st i)) [0..nr_token st - 1]"

definition array_of :: "Token list \<Rightarrow> int \<Rightarrow> Token" where
  \<comment> \<open>a token array that starts with the given tokens; the other slots are zero, as in
      a static array nothing was written to\<close>
  "array_of ts i = (if 0 \<le> i \<and> i < int (length ts) then ts ! nat i else \<lparr>type = 0, str = []\<rparr>)"

definition initial_lexer :: lexer where
  \<comment> \<open>the static variables when the program starts\<close>
  "initial_lexer = \<lparr>tokens = array_of [], nr_token = 0\<rparr>"

definition no_collab :: collab where
  \<comment> \<open>a machine that knows no register and reads 0 everywhere\<close>
  "no_collab = \<lparr>isa_reg_str2val = (\<lambda>name. (0, False)), vaddr_read = (\<lambda>addr len. 0)\<rparr>"

subsection \<open>Notions used in the properties\<close>

text \<open>
  The words a pattern matches, to state what \<open>regexec\<close> computes.
\<close>

inductive_set repeated :: "string set \<Rightarrow> string set" for A :: "string set" where
  none: "[] \<in> repeated A"
| more: "u \<in> A \<Longrightarrow> v \<in> repeated A \<Longrightarrow> u @ v \<in> repeated A"

fun lang :: "regex \<Rightarrow> string set" where
  "lang Zero = {}"
| "lang One = {[]}"
| "lang (Lit c) = {[c]}"
| "lang (Bracket its) = {[c] | c. list_ex (in_item c) its}"
| "lang (Seq r s) = {u @ v | u v. u \<in> lang r \<and> v \<in> lang s}"
| "lang (Alt r s) = lang r \<union> lang s"
| "lang (Plus r) = {u @ v | u v. u \<in> lang r \<and> v \<in> repeated (lang r)}"
| "lang (Star r) = repeated (lang r)"

text \<open>
  The depth of position \<open>i\<close> in a scan that starts at \<open>p\<close> is the number of \<^verbatim>\<open>(\<close>
  minus the number of \<^verbatim>\<open>)\<close> among the tokens \<open>p \<dots> i - 1\<close>; it is what
  \<^verbatim>\<open>n_left\<close> holds when the loop of \<^verbatim>\<open>find_main_operator_index\<close> looks at token \<open>i\<close>.
  A candidate is an operator token at depth 0.
\<close>

definition paren_delta :: "int \<Rightarrow> int" where
  "paren_delta t = (if t = ch CHR ''('' then 1 else if t = ch CHR '')'' then - 1 else 0)"

definition depth :: "(int \<Rightarrow> Token) \<Rightarrow> int \<Rightarrow> int \<Rightarrow> int" where
  "depth tks p i = sum_list (map (\<lambda>j. paren_delta (type (tks j))) [p..i - 1])"

definition candidate :: "(int \<Rightarrow> Token) \<Rightarrow> int \<Rightarrow> int \<Rightarrow> bool" where
  "candidate tks p j = (is_operator (type (tks j)) \<and> depth tks p j = 0)"

text \<open>
  What the loop of \<^verbatim>\<open>find_main_operator_index\<close> knows when it reaches position \<open>i\<close>:
  either no candidate lies in front of \<open>i\<close>, or \<open>moi\<close> is one of least priority among
  them and the last one of that priority.
\<close>

definition best_so_far :: "(int \<Rightarrow> Token) \<Rightarrow> int \<Rightarrow> int \<Rightarrow> int \<Rightarrow> int \<Rightarrow> bool" where
  "best_so_far tks p i moi mo =
     (if moi = - 1 then \<forall>j. p \<le> j \<and> j < i \<longrightarrow> \<not> candidate tks p j
      else p \<le> moi \<and> moi < i \<and> mo = type (tks moi) \<and> candidate tks p moi
           \<and> (\<forall>j. p \<le> j \<and> j < i \<and> candidate tks p j \<longrightarrow>
                 (\<exists>a b. priority (type (tks moi)) = Inr a \<and> priority (type (tks j)) = Inr b
                        \<and> a \<le> b \<and> (a = b \<longrightarrow> j \<le> moi))))"

definition is_binary :: "int \<Rightarrow> bool" where
  \<comment> \<open>the seven \<^verbatim>\<open>case\<close> labels of the last \<^verbatim>\<open>switch\<close> of \<^verbatim>\<open>eval_expr\<close>\<close>
  "is_binary operator =
     (operator = ch CHR ''+'' \<or> operator = ch CHR ''-'' \<or> operator = ch CHR ''*''
      \<or> operator = ch CHR ''/'' \<or> operator = TK_EQ \<or> operator = TK_NE
      \<or> operator = TK_AND)"

definition op_token :: "int \<Rightarrow> Token" where
  "op_token t = \<lparr>type = t, str = []\<rparr>"

definition uint_token :: "string \<Rightarrow> Token" where
  "uint_token s = \<lparr>type = TK_UINT, str = s\<rparr>"

definition tokens_minus_chain :: "int \<Rightarrow> Token" where
  \<comment> \<open>the tokens of \<^verbatim>\<open>10-3-2\<close>\<close>
  "tokens_minus_chain = array_of
     [uint_token ''10'', op_token (ch CHR ''-''), uint_token ''3'', op_token (ch CHR ''-''),
      uint_token ''2'']"

definition tokens_plus_plus :: "int \<Rightarrow> Token" where
  \<comment> \<open>the tokens of \<^verbatim>\<open>++\<close>\<close>
  "tokens_plus_plus = array_of [op_token (ch CHR ''+''), op_token (ch CHR ''+'')]"

definition tokens_and_right_zero :: "int \<Rightarrow> Token" where
  \<comment> \<open>the tokens of \<^verbatim>\<open>(1/0)&&0\<close>\<close>
  "tokens_and_right_zero = array_of
     [op_token (ch CHR ''(''), uint_token ''1'', op_token (ch CHR ''/''), uint_token ''0'',
      op_token (ch CHR '')''), op_token TK_AND, uint_token ''0'']"

definition tokens_div_zero :: "int \<Rightarrow> Token" where
  \<comment> \<open>the tokens of \<^verbatim>\<open>1/0\<close>\<close>
  "tokens_div_zero = array_of [uint_token ''1'', op_token (ch CHR ''/''), uint_token ''0'']"

section \<open>Properties\<close>

lemmas lex_simps =
  make_token_def make_token_loop.simps rules_def regexec_def reg_names_def hex_digits_def
  record_token_def append_token_def is_unary_context_def Let_def tk_defs kinds_def
  upto.simps

lemmas eval_simps =
  eval_expr.simps is_paired_def is_paired_loop.simps find_main_operator_index_def
  find_main_operator_loop.simps priority_def is_operator_def sscanf_d_def sscanf_x_def
  starts_with_digit_def digit_value_def apply_binary_def

lemmas example_simps =
  tokens_minus_chain_def tokens_plus_plus_def tokens_and_right_zero_def tokens_div_zero_def
  array_of_def op_token_def uint_token_def

subsection \<open>The matcher\<close>

text \<open>
  \<open>regexec r s\<close> is the length of the longest prefix of \<open>s\<close> that \<open>r\<close> matches, and
  \<open>None\<close> when \<open>r\<close> matches no prefix of \<open>s\<close>.
\<close>

lemma repeated_cons:
  "c # w \<in> repeated A \<longleftrightarrow> (\<exists>u v. w = u @ v \<and> c # u \<in> A \<and> v \<in> repeated A)"
proof
  assume "c # w \<in> repeated A"
  then show "\<exists>u v. w = u @ v \<and> c # u \<in> A \<and> v \<in> repeated A"
  proof (induction "c # w" rule: repeated.induct)
    case (more u v)
    show ?case
    proof (cases u)
      case Nil
      with more show ?thesis by simp
    next
      case (Cons d u')
      with more.hyps show ?thesis by auto
    qed
  qed
next
  assume "\<exists>u v. w = u @ v \<and> c # u \<in> A \<and> v \<in> repeated A"
  then obtain u v where "w = u @ v" "c # u \<in> A" "v \<in> repeated A" by blast
  then show "c # w \<in> repeated A"
    using repeated.more [of "c # u" A v] by simp
qed

lemma repeated_once_more:
  "c # w \<in> {u @ v | u v. u \<in> A \<and> v \<in> repeated A} \<longleftrightarrow> c # w \<in> repeated A"
proof
  assume "c # w \<in> {u @ v | u v. u \<in> A \<and> v \<in> repeated A}"
  then show "c # w \<in> repeated A"
    by (auto intro: repeated.more)
next
  assume "c # w \<in> repeated A"
  then obtain u v where "w = u @ v" "c # u \<in> A" "v \<in> repeated A"
    unfolding repeated_cons by blast
  then have "c # w = (c # u) @ v \<and> c # u \<in> A \<and> v \<in> repeated A"
    by simp
  then show "c # w \<in> {u @ v | u v. u \<in> A \<and> v \<in> repeated A}"
    by blast
qed

lemma nullable_lang: "nullable r \<longleftrightarrow> [] \<in> lang r"
  by (induction r) (auto intro: repeated.none)

lemma lang_seq: "lang (seq r s) = lang (Seq r s)"
  by (cases r) auto

lemma lang_alt: "lang (alt r s) = lang r \<union> lang s"
  by (induction r s rule: alt.induct) auto

lemma lang_deriv: "w \<in> lang (deriv c r) \<longleftrightarrow> c # w \<in> lang r"
proof (induction r arbitrary: w)
  case (Seq r s)
  then show ?case
    by (auto simp: lang_seq lang_alt nullable_lang Cons_eq_append_conv)
next
  case (Plus r)
  then show ?case
    unfolding lang.simps repeated_once_more
    by (auto simp: lang_seq repeated_cons)
next
  case (Star r)
  then show ?case
    by (auto simp: lang_seq repeated_cons)
qed (auto simp: lang_alt)

lemma longest_from_none:
  "(\<forall>k \<le> length s. take k s \<notin> lang r) \<Longrightarrow> longest_from r s n best = best"
proof (induction s arbitrary: r n best)
  case Nil
  then show ?case by (simp add: nullable_lang)
next
  case (Cons c cs)
  from Cons.prems [rule_format, of 0] have nn: "\<not> nullable r"
    by (simp add: nullable_lang)
  have "\<forall>k \<le> length cs. take k cs \<notin> lang (deriv c r)"
  proof (intro allI impI)
    fix k assume "k \<le> length cs"
    with Cons.prems [rule_format, of "Suc k"] show "take k cs \<notin> lang (deriv c r)"
      by (simp add: lang_deriv)
  qed
  from Cons.IH [OF this] nn show ?case by simp
qed

lemma longest_from_greatest:
  "k \<le> length s \<Longrightarrow> take k s \<in> lang r \<Longrightarrow>
   (\<forall>k'. k < k' \<and> k' \<le> length s \<longrightarrow> take k' s \<notin> lang r) \<Longrightarrow>
   longest_from r s n best = Some (n + int k)"
proof (induction s arbitrary: r n best k)
  case Nil
  then show ?case by (simp add: nullable_lang)
next
  case (Cons c cs)
  from Cons.prems(2) have nz: "r \<noteq> Zero" by auto
  show ?case
  proof (cases k)
    case 0
    with Cons.prems(2) have nu: "nullable r" by (simp add: nullable_lang)
    have "\<forall>j \<le> length cs. take j cs \<notin> lang (deriv c r)"
    proof (intro allI impI)
      fix j assume "j \<le> length cs"
      with Cons.prems(3) [rule_format, of "Suc j"] 0 show "take j cs \<notin> lang (deriv c r)"
        by (simp add: lang_deriv)
    qed
    from longest_from_none [OF this] nz nu 0 show ?thesis by simp
  next
    case (Suc j)
    with Cons.prems(1,2) have j: "j \<le> length cs" "take j cs \<in> lang (deriv c r)"
      by (simp_all add: lang_deriv)
    have "\<forall>k'. j < k' \<and> k' \<le> length cs \<longrightarrow> take k' cs \<notin> lang (deriv c r)"
    proof (intro allI impI)
      fix k' assume "j < k' \<and> k' \<le> length cs"
      with Cons.prems(3) [rule_format, of "Suc k'"] Suc show "take k' cs \<notin> lang (deriv c r)"
        by (simp add: lang_deriv)
    qed
    from Cons.IH [OF j this] nz Suc show ?thesis by simp
  qed
qed

lemma regexec_greatest:
  "k \<le> length s \<Longrightarrow> take k s \<in> lang r \<Longrightarrow>
   (\<forall>k'. k < k' \<and> k' \<le> length s \<longrightarrow> take k' s \<notin> lang r) \<Longrightarrow>
   regexec r s = Some (int k)"
  using longest_from_greatest [of k s r 0 None] by (simp add: regexec_def)

lemma regexec_none:
  "(\<forall>k \<le> length s. take k s \<notin> lang r) \<Longrightarrow> regexec r s = None"
  by (simp add: regexec_def longest_from_none)

subsection \<open>The parenthesis check\<close>

text \<open>
  Claim C1 says that \<^verbatim>\<open>is_paired(p, q)\<close> holds only if the token at \<open>p\<close> is
  \<^verbatim>\<open>(\<close> and the token at \<open>q\<close> is \<^verbatim>\<open>)\<close>. The guard of line 168 joins the two
  tests with \<^verbatim>\<open>&&\<close>, so it only rejects a range where both ends are wrong. On the
  tokens of \<^verbatim>\<open>(1+2\<close> the range \<open>[0, 3]\<close> ends in a number and is accepted, and on
  the tokens of \<^verbatim>\<open>-3)\<close> the range \<open>[0, 2]\<close> starts with a negation and is accepted.
\<close>

theorem is_paired_accepts_one_sided_range:
  "type (array_of [\<lparr>type = ch CHR ''('', str = []\<rparr>, \<lparr>type = TK_UINT, str = ''1''\<rparr>,
                   \<lparr>type = ch CHR ''+'', str = []\<rparr>, \<lparr>type = TK_UINT, str = ''2''\<rparr>] 3)
     \<noteq> ch CHR '')''
   \<and> is_paired (array_of [\<lparr>type = ch CHR ''('', str = []\<rparr>, \<lparr>type = TK_UINT, str = ''1''\<rparr>,
                   \<lparr>type = ch CHR ''+'', str = []\<rparr>, \<lparr>type = TK_UINT, str = ''2''\<rparr>]) 0 3
   \<and> type (array_of [\<lparr>type = TK_NEG, str = []\<rparr>, \<lparr>type = TK_UINT, str = ''3''\<rparr>,
                   \<lparr>type = ch CHR '')'', str = []\<rparr>] 0)
     \<noteq> ch CHR ''(''
   \<and> is_paired (array_of [\<lparr>type = TK_NEG, str = []\<rparr>, \<lparr>type = TK_UINT, str = ''3''\<rparr>,
                   \<lparr>type = ch CHR '')'', str = []\<rparr>]) 0 2"
  by (simp add: eval_simps array_of_def tk_defs)

subsection \<open>The single-token case\<close>

text \<open>
  Claim C2 says that on an input the tokenizer accepts the evaluator never reaches the
  failing \<^verbatim>\<open>Assert\<close> of its single-token case. The input \<^verbatim>\<open>+\<close> is accepted and
  gives one token, of kind \<^verbatim>\<open>'+'\<close>; \<^verbatim>\<open>expr\<close> then calls \<^verbatim>\<open>eval_expr(0, 0)\<close>, which
  runs into the \<^verbatim>\<open>default\<close> branch and the assertion fails.
\<close>

theorem single_operator_reaches_assert:
  "(\<exists>st'. make_token st ''+'' = Inr (True, st') \<and> kinds st' = [ch CHR ''+'']
          \<and> eval_expr c (tokens st') 0 (nr_token st' - 1) = Inl Assertion_failed)
   \<and> expr c st ''+'' = Inl Assertion_failed"
  by (simp add: expr_def lex_simps eval_simps)

subsection \<open>An unmatched closing parenthesis\<close>

text \<open>
  Claim C3: there is an input with an unmatched closing parenthesis, \<^verbatim>\<open>-3)\<close>, for
  which \<^verbatim>\<open>expr\<close> succeeds with the value 3. Its three tokens are a negation, the number
  and the parenthesis; \<^verbatim>\<open>is_paired(0, 2)\<close> holds although the first token is not
  \<^verbatim>\<open>(\<close>, so the evaluator drops the first and the last token and evaluates the number
  alone.
\<close>

theorem unmatched_close_paren_evaluates:
  "(\<exists>st'. make_token st ''-3)'' = Inr (True, st')
          \<and> kinds st' = [TK_NEG, TK_UINT, ch CHR '')'']
          \<and> type (tokens st' 0) \<noteq> ch CHR ''(''
          \<and> is_paired (tokens st') 0 2
          \<and> eval_expr c (tokens st') 0 2 = eval_expr c (tokens st') 1 1)
   \<and> expr c st ''-3)'' = Inr (3, True)"
  by (simp add: expr_def lex_simps eval_simps)

subsection \<open>Precedence\<close>

text \<open>
  Claim C5: multiplication and division bind tighter than addition and subtraction, and
  parentheses override this. The priorities of \<^verbatim>\<open>*\<close> and \<^verbatim>\<open>/\<close> are 3, those of
  \<^verbatim>\<open>+\<close> and \<^verbatim>\<open>-\<close> are 2, and the main operator is one of least priority; so
  \<^verbatim>\<open>2+3*4\<close> is 14 and \<^verbatim>\<open>(2+3)*4\<close> is 20, both with success.
\<close>

theorem precedence_examples:
  "priority (ch CHR ''*'') = Inr 3 \<and> priority (ch CHR ''/'') = Inr 3
   \<and> priority (ch CHR ''+'') = Inr 2 \<and> priority (ch CHR ''-'') = Inr 2
   \<and> (\<exists>st'. make_token st ''2+3*4'' = Inr (True, st')
            \<and> find_main_operator_index (tokens st') 0 (nr_token st' - 1) = Inr 1)
   \<and> expr c st ''2+3*4'' = Inr (14, True)
   \<and> (\<exists>st'. make_token st ''(2+3)*4'' = Inr (True, st')
            \<and> find_main_operator_index (tokens st') 0 (nr_token st' - 1) = Inr 5)
   \<and> expr c st ''(2+3)*4'' = Inr (20, True)"
  by (simp add: expr_def lex_simps eval_simps)

subsection \<open>Hexadecimal literals\<close>

text \<open>
  Claim C9: the input \<^verbatim>\<open>0x1A\<close> gives exactly one token, of kind \<^verbatim>\<open>TK_HEX\<close>, and
  evaluates to 26 with success. At position 0 the rule for decimal numbers matches as
  well (the digit \<^verbatim>\<open>0\<close>), but the rule for hexadecimal numbers stands before it in the
  table (index 8 before index 9) and is taken, with all four characters.
\<close>

theorem hex_literal_example:
  "regexec (regex (rules ! 8)) ''0x1A'' = Some 4
   \<and> token_type (rules ! 8) = TK_HEX
   \<and> regexec (regex (rules ! 9)) ''0x1A'' = Some 1
   \<and> token_type (rules ! 9) = TK_UINT
   \<and> try_rules rules 0 ''0x1A'' = Some (8, 4)
   \<and> (\<exists>st'. make_token st ''0x1A'' = Inr (True, st') \<and> nr_token st' = 1
            \<and> kinds st' = [TK_HEX] \<and> str (tokens st' 0) = ''0x1A'')
   \<and> expr c st ''0x1A'' = Inr (26, True)"
  by (simp add: expr_def lex_simps eval_simps)

subsection \<open>Inputs of blanks\<close>

lemma longest_from_run:
  "longest_from (Star (Lit c)) (replicate n c) k best = Some (k + int n)"
  by (induction n arbitrary: k best) simp_all

lemma regexec_run:
  "regexec (Plus (Lit c)) (replicate (Suc n) c) = Some (1 + int n)"
  by (simp add: regexec_def longest_from_run)

lemma try_rules_blanks:
  "try_rules rules 0 (replicate (Suc n) CHR '' '') = Some (0, 1 + int n)"
  by (simp add: rules_def regexec_run del: replicate.simps)

lemma rules_first: "token_type (rules ! 0) = TK_NOTYPE"
  by (simp add: rules_def)

lemma make_token_blanks:
  "make_token st (replicate n CHR '' '') = Inr (True, st\<lparr>nr_token := 0\<rparr>)"
proof (cases n)
  case 0
  then show ?thesis
    by (simp add: make_token_def make_token_loop.simps)
next
  case (Suc m)
  have "make_token_loop (replicate (Suc m) CHR '' '') 0 (st\<lparr>nr_token := 0\<rparr>)
        = make_token_loop (replicate (Suc m) CHR '' '') (1 + int m) (st\<lparr>nr_token := 0\<rparr>)"
    by (subst make_token_loop.simps)
       (simp add: try_rules_blanks rules_first record_token_def del: replicate.simps)
  also have "\<dots> = Inr (True, st\<lparr>nr_token := 0\<rparr>)"
    by (subst make_token_loop.simps) simp
  finally show ?thesis
    using Suc by (simp add: make_token_def)
qed

text \<open>
  Claim C8 says that every input of whitespace alone is tokenized, to no token at all.
  The first rule is \<^verbatim>\<open>" +"\<close>: it matches the blank (code 32) and nothing else. A
  tabulator is whitespace, and no rule matches it: \<^verbatim>\<open>make_token\<close> returns false on the
  input that consists of one tabulator, and \<^verbatim>\<open>expr\<close> fails before the evaluator is
  called.
\<close>

theorem tab_is_rejected:
  "make_token initial_lexer [CHR 0x09] = Inr (False, initial_lexer)
   \<and> expr no_collab initial_lexer [CHR 0x09] = Inr (0, False)"
  by (simp add: expr_def lex_simps initial_lexer_def)

text \<open>
  Claim C8, amended: for every input that consists of blanks (the character of code 32)
  alone, of any length, tokenization succeeds and leaves no token, and the evaluation
  of the empty range \<open>[0, -1]\<close> fails with the value 0.
\<close>

theorem blanks_give_no_token:
  "make_token st (replicate n CHR '' '') = Inr (True, st\<lparr>nr_token := 0\<rparr>)
   \<and> nr_token (st\<lparr>nr_token := 0\<rparr>) = 0
   \<and> kinds (st\<lparr>nr_token := 0\<rparr>) = []
   \<and> eval_expr c (tokens st) 0 (- 1) = Inr (0, False)
   \<and> expr c st (replicate n CHR '' '') = Inr (0, False)"
  by (simp add: make_token_blanks expr_def kinds_def eval_expr.simps)

subsection \<open>The choice of the main operator\<close>

lemma depth_start: "depth tks p p = 0"
  by (simp add: depth_def)

lemma depth_step:
  "p \<le> i \<Longrightarrow> depth tks p (i + 1) = depth tks p i + paren_delta (type (tks i))"
  by (simp add: depth_def upto_rec2 [of p i])

lemma priority_operator: "is_operator t \<Longrightarrow> \<exists>a. priority t = Inr a"
  by (auto simp: is_operator_def priority_def)

lemma operator_not_paren: "is_operator t \<Longrightarrow> paren_delta t = 0"
  by (auto simp: is_operator_def paren_delta_def tk_defs)

lemma best_so_far_skip:
  assumes "best_so_far tks p i moi mo" and "\<not> candidate tks p i"
  shows "best_so_far tks p (i + 1) moi mo"
proof -
  have old: "j < i" if "j \<le> i" and "candidate tks p j" for j
    using that assms(2) by (cases "j = i") auto
  from assms(1) show ?thesis
    unfolding best_so_far_def by (auto dest: old)
qed

lemma best_so_far_first:
  assumes "0 \<le> p" and "p \<le> i" and "best_so_far tks p i (- 1) mo" and "candidate tks p i"
  shows "best_so_far tks p (i + 1) i (type (tks i))"
proof -
  from assms(4) obtain a where a: "priority (type (tks i)) = Inr a"
    using priority_operator by (auto simp: candidate_def)
  have only: "j = i" if "p \<le> j" and "j < i + 1" and "candidate tks p j" for j
    using that assms(3) unfolding best_so_far_def by (cases "j = i") auto
  from assms(1,2) have "i \<noteq> - 1" by simp
  with assms(2,4) a show ?thesis
    unfolding best_so_far_def by (auto dest: only)
qed

lemma best_so_far_replace:
  assumes "0 \<le> p" and "p \<le> i" and "best_so_far tks p i moi mo" and "moi \<noteq> - 1"
    and "candidate tks p i"
    and "priority (type (tks i)) = Inr a" and "priority mo = Inr b" and "a \<le> b"
  shows "best_so_far tks p (i + 1) i (type (tks i))"
proof -
  from assms(3,4) have mo: "mo = type (tks moi)"
    and old: "\<And>j. p \<le> j \<Longrightarrow> j < i \<Longrightarrow> candidate tks p j \<Longrightarrow>
       \<exists>a' b'. priority (type (tks moi)) = Inr a' \<and> priority (type (tks j)) = Inr b'
              \<and> a' \<le> b' \<and> (a' = b' \<longrightarrow> j \<le> moi)"
    unfolding best_so_far_def by auto
  have new: "\<exists>a' b'. priority (type (tks i)) = Inr a' \<and> priority (type (tks j)) = Inr b'
              \<and> a' \<le> b' \<and> (a' = b' \<longrightarrow> j \<le> i)"
    if "p \<le> j" and "j < i + 1" and "candidate tks p j" for j
  proof (cases "j = i")
    case True
    with assms(6) show ?thesis by simp
  next
    case False
    with that have "j < i" by simp
    from old [OF that(1) this that(3)] assms(6,7,8) mo \<open>j < i\<close> show ?thesis
      by auto
  qed
  from assms(1,2) have "i \<noteq> - 1" by simp
  with assms(2,5) new show ?thesis
    unfolding best_so_far_def by simp
qed

lemma best_so_far_keep:
  assumes "p \<le> i" and "best_so_far tks p i moi mo" and "moi \<noteq> - 1"
    and "priority (type (tks i)) = Inr a" and "priority mo = Inr b" and "\<not> a \<le> b"
  shows "best_so_far tks p (i + 1) moi mo"
proof -
  from assms(2,3) have mo: "mo = type (tks moi)" and range: "p \<le> moi" "moi < i"
    and cand: "candidate tks p moi"
    and old: "\<And>j. p \<le> j \<Longrightarrow> j < i \<Longrightarrow> candidate tks p j \<Longrightarrow>
       \<exists>a' b'. priority (type (tks moi)) = Inr a' \<and> priority (type (tks j)) = Inr b'
              \<and> a' \<le> b' \<and> (a' = b' \<longrightarrow> j \<le> moi)"
    unfolding best_so_far_def by auto
  have new: "\<exists>a' b'. priority (type (tks moi)) = Inr a' \<and> priority (type (tks j)) = Inr b'
              \<and> a' \<le> b' \<and> (a' = b' \<longrightarrow> j \<le> moi)"
    if "p \<le> j" and "j < i + 1" and "candidate tks p j" for j
  proof (cases "j = i")
    case True
    with assms(4,5,6) mo show ?thesis by auto
  next
    case False
    with that have "j < i" by simp
    from old [OF that(1) this that(3)] show ?thesis .
  qed
  from assms(3) mo range cand new show ?thesis
    unfolding best_so_far_def by simp
qed

lemma best_so_far_kind:
  "best_so_far tks p i moi mo \<Longrightarrow> best_so_far tks p i moi (type (tks moi))"
  unfolding best_so_far_def by (auto split: if_splits)

lemma find_main_operator_loop_done:
  "\<not> i \<le> q \<Longrightarrow> find_main_operator_loop tks i q moi mo n = Inr moi"
  by (subst find_main_operator_loop.simps) simp

text \<open>
  The loop keeps \<open>best_so_far\<close>, never fails an assertion and so returns an index
  that is best for the whole range.
\<close>

lemma find_main_operator_loop_selects:
  assumes "0 \<le> p"
  shows "best_so_far tks p i moi mo \<Longrightarrow> p \<le> i \<Longrightarrow> i \<le> q + 1 \<Longrightarrow>
    \<exists>r. find_main_operator_loop tks i q moi mo (depth tks p i) = Inr r
       \<and> best_so_far tks p (q + 1) r (type (tks r))"
proof (induction "nat (q + 1 - i)" arbitrary: i moi mo)
  case 0
  then have "\<not> i \<le> q" and "i = q + 1" by simp_all
  with best_so_far_kind [OF "0.prems"(1)] show ?case
    by (simp add: find_main_operator_loop_done)
next
  case (Suc k)
  from Suc.hyps(2) have le: "i \<le> q" and k: "k = nat (q + 1 - (i + 1))"
    by linarith+
  from Suc.prems(2) le have range: "p \<le> i + 1" "i + 1 \<le> q + 1"
    by simp_all
  have next_call: "\<exists>r. find_main_operator_loop tks (i + 1) q moi' mo' (depth tks p (i + 1)) = Inr r
       \<and> best_so_far tks p (q + 1) r (type (tks r))"
    if "best_so_far tks p (i + 1) moi' mo'" for moi' mo'
    using Suc.hyps(1) [OF k that range] .
  note step = depth_step [OF Suc.prems(2), of tks]
  note unfold = find_main_operator_loop.simps [of tks i q moi mo "depth tks p i"]
  let ?t = "type (tks i)"
  consider (open_paren) "?t = ch CHR ''(''"
    | (close_paren) "?t = ch CHR '')''"
    | (operator) "is_operator ?t"
    | (other) "?t \<noteq> ch CHR ''(''" "?t \<noteq> ch CHR '')''" "\<not> is_operator ?t"
    by blast
  then show ?case
  proof cases
    case open_paren
    then have nc: "\<not> candidate tks p i"
      by (auto simp: candidate_def is_operator_def tk_defs)
    from next_call [OF best_so_far_skip [OF Suc.prems(1) nc]] open_paren le show ?thesis
      by (simp add: unfold step paren_delta_def)
  next
    case close_paren
    then have nc: "\<not> candidate tks p i"
      by (auto simp: candidate_def is_operator_def tk_defs)
    have np: "?t \<noteq> ch CHR ''(''"
      using close_paren by (simp add: tk_defs)
    from next_call [OF best_so_far_skip [OF Suc.prems(1) nc]] close_paren np le show ?thesis
      by (simp add: unfold step paren_delta_def)
  next
    case other
    then have nc: "\<not> candidate tks p i"
      by (simp add: candidate_def)
    from next_call [OF best_so_far_skip [OF Suc.prems(1) nc]] other le show ?thesis
      by (simp add: unfold step paren_delta_def)
  next
    case operator
    then have np: "?t \<noteq> ch CHR ''(''" "?t \<noteq> ch CHR '')''"
      by (auto simp: is_operator_def tk_defs)
    from operator have same: "depth tks p (i + 1) = depth tks p i"
      by (simp add: step operator_not_paren)
    show ?thesis
    proof (cases "depth tks p i = 0")
      case False
      then have nc: "\<not> candidate tks p i"
        by (simp add: candidate_def)
      have "find_main_operator_loop tks i q moi mo (depth tks p i)
            = find_main_operator_loop tks (i + 1) q moi mo (depth tks p (i + 1))"
        unfolding unfold using operator np le False
        by (simp add: same)
      with next_call [OF best_so_far_skip [OF Suc.prems(1) nc]]
      show ?thesis
        by simp
    next
      case True
      with operator have cand: "candidate tks p i"
        by (simp add: candidate_def)
      show ?thesis
      proof (cases "moi = - 1")
        case True
        with Suc.prems(1) have none: "best_so_far tks p i (- 1) mo" by simp
        have "find_main_operator_loop tks i q moi mo (depth tks p i)
              = find_main_operator_loop tks (i + 1) q i ?t (depth tks p (i + 1))"
          unfolding unfold using operator np le \<open>depth tks p i = 0\<close> True
          by (simp add: same)
        with next_call [OF best_so_far_first [OF assms Suc.prems(2) none cand]]
        show ?thesis
          by simp
      next
        case False
        from operator obtain a where a: "priority ?t = Inr a"
          using priority_operator by blast
        from Suc.prems(1) False have "is_operator mo"
          by (simp add: best_so_far_def candidate_def)
        then obtain b where b: "priority mo = Inr b"
          using priority_operator by blast
        show ?thesis
        proof (cases "a \<le> b")
          case True
          have "find_main_operator_loop tks i q moi mo (depth tks p i)
                = find_main_operator_loop tks (i + 1) q i ?t (depth tks p (i + 1))"
            unfolding unfold using operator np le \<open>depth tks p i = 0\<close> False a b True
            by (simp add: same)
          with next_call [OF best_so_far_replace [OF assms Suc.prems(2,1) False cand a b True]]
          show ?thesis
            by simp
        next
          case nle: False
          have "find_main_operator_loop tks i q moi mo (depth tks p i)
                = find_main_operator_loop tks (i + 1) q moi mo (depth tks p (i + 1))"
            unfolding unfold using operator np le \<open>depth tks p i = 0\<close> False a b nle
            by (simp add: same)
          with next_call [OF best_so_far_keep [OF Suc.prems(2,1) False a b nle]]
          show ?thesis
            by simp
        qed
      qed
    qed
  qed
qed

lemma find_main_operator_index_selects:
  assumes "0 \<le> p" and "p \<le> q + 1"
  shows "\<exists>r. find_main_operator_index tks p q = Inr r
       \<and> best_so_far tks p (q + 1) r (type (tks r))"
proof -
  have "best_so_far tks p p (- 1) (- 1)"
    by (auto simp: best_so_far_def)
  from find_main_operator_loop_selects [OF assms(1) this _ assms(2)] show ?thesis
    by (simp add: find_main_operator_index_def depth_start)
qed

lemma find_main_operator_index_rightmost:
  assumes "0 \<le> p" and "p \<le> j" and "j \<le> q" and "candidate tks p j"
  shows "\<exists>r. find_main_operator_index tks p q = Inr r \<and> p \<le> r \<and> r \<le> q
             \<and> candidate tks p r
             \<and> (\<exists>a b. priority (type (tks r)) = Inr a \<and> priority (type (tks j)) = Inr b
                    \<and> a \<le> b \<and> (a = b \<longrightarrow> j \<le> r))"
proof -
  from assms(2,3) have "p \<le> q + 1" by simp
  from find_main_operator_index_selects [OF assms(1) this, of tks]
  obtain r where r: "find_main_operator_index tks p q = Inr r"
    and best: "best_so_far tks p (q + 1) r (type (tks r))"
    by blast
  from assms(2,3) have j: "p \<le> j \<and> j < q + 1" by simp
  from best assms(4) j have "r \<noteq> - 1"
    unfolding best_so_far_def by auto
  with best assms(4) j r show ?thesis
    unfolding best_so_far_def by auto
qed

text \<open>
  Claim C4: among the operators at depth 0 the search returns one of least priority,
  and of those with that priority the right-most one (a later candidate replaces the
  current one when its priority is less or equal), which groups a chain of binary
  operators of one priority to the left. For every range \<open>[p, q]\<close> of the array that
  holds a candidate \<open>j\<close>, the search returns an index \<open>r\<close> in the range, a candidate
  whose priority is at most that of \<open>j\<close>, and \<open>j \<le> r\<close> when the priorities are equal.
  In \<^verbatim>\<open>10-3-2\<close> the main operator is the second \<^verbatim>\<open>-\<close> (token 3), the left operand
  \<^verbatim>\<open>10-3\<close> is 7, and the value is 5, with success.
\<close>

theorem main_operator_rightmost_of_least_priority:
  "(0 \<le> p \<and> p \<le> j \<and> j \<le> q \<and> candidate tks p j \<longrightarrow>
      (\<exists>r. find_main_operator_index tks p q = Inr r \<and> p \<le> r \<and> r \<le> q
          \<and> candidate tks p r
          \<and> (\<exists>a b. priority (type (tks r)) = Inr a \<and> priority (type (tks j)) = Inr b
                 \<and> a \<le> b \<and> (a = b \<longrightarrow> j \<le> r))))
   \<and> (\<exists>st'. make_token st ''10-3-2'' = Inr (True, st')
          \<and> kinds st' = [TK_UINT, ch CHR ''-'', TK_UINT, ch CHR ''-'', TK_UINT]
          \<and> find_main_operator_index (tokens st') 0 (nr_token st' - 1) = Inr 3
          \<and> eval_expr c (tokens st') 0 2 = Inr (7, True)
          \<and> eval_expr c (tokens st') 4 4 = Inr (2, True))
   \<and> expr c st ''10-3-2'' = Inr (5, True)"
proof (intro conjI impI)
  assume "0 \<le> p \<and> p \<le> j \<and> j \<le> q \<and> candidate tks p j"
  then show "\<exists>r. find_main_operator_index tks p q = Inr r \<and> p \<le> r \<and> r \<le> q
          \<and> candidate tks p r
          \<and> (\<exists>a b. priority (type (tks r)) = Inr a \<and> priority (type (tks j)) = Inr b
                 \<and> a \<le> b \<and> (a = b \<longrightarrow> j \<le> r))"
    using find_main_operator_index_rightmost [of p j q tks] by blast
next
  show "\<exists>st'. make_token st ''10-3-2'' = Inr (True, st')
          \<and> kinds st' = [TK_UINT, ch CHR ''-'', TK_UINT, ch CHR ''-'', TK_UINT]
          \<and> find_main_operator_index (tokens st') 0 (nr_token st' - 1) = Inr 3
          \<and> eval_expr c (tokens st') 0 2 = Inr (7, True)
          \<and> eval_expr c (tokens st') 4 4 = Inr (2, True)"
    by (simp add: lex_simps eval_simps)
next
  show "expr c st ''10-3-2'' = Inr (5, True)"
    by (simp add: expr_def lex_simps eval_simps)
qed

theorem main_operator_rightmost_of_least_priority_witness:
  "candidate tokens_minus_chain 0 1
   \<and> priority (type (tokens_minus_chain 1)) = Inr 2
   \<and> (\<exists>r. find_main_operator_index tokens_minus_chain 0 4 = Inr r \<and> 1 \<le> r \<and> r \<le> 4
          \<and> candidate tokens_minus_chain 0 r
          \<and> priority (type (tokens_minus_chain r)) = Inr 2)"
proof -
  have cand: "candidate tokens_minus_chain 0 1"
    by (simp add: candidate_def depth_def paren_delta_def is_operator_def example_simps
        tk_defs upto.simps)
  have prio: "priority (type (tokens_minus_chain 1)) = Inr 2"
    by (simp add: priority_def example_simps tk_defs)
  have h: "(0::int) \<le> 0 \<and> (0::int) \<le> 1 \<and> (1::int) \<le> 4 \<and> candidate tokens_minus_chain 0 1"
    using cand by simp
  from main_operator_rightmost_of_least_priority
         [where p = 0 and j = 1 and q = 4 and tks = tokens_minus_chain,
          THEN conjunct1, THEN mp, OF h]
  obtain r a b where r: "find_main_operator_index tokens_minus_chain 0 4 = Inr r"
    and range: "0 \<le> r" "r \<le> 4" and cr: "candidate tokens_minus_chain 0 r"
    and a: "priority (type (tokens_minus_chain r)) = Inr a"
    and b: "priority (type (tokens_minus_chain 1)) = Inr b"
    and ab: "a \<le> b" "a = b \<longrightarrow> 1 \<le> r"
    by blast
  have three: "find_main_operator_index tokens_minus_chain 0 4 = Inr 3"
    by (simp add: eval_simps example_simps tk_defs)
  with r have "r = 3" by simp
  with a have "a = 2"
    by (simp add: priority_def example_simps tk_defs)
  with cand prio r range cr a ab \<open>r = 3\<close> show ?thesis
    by simp
qed

subsection \<open>Unary and binary \<^verbatim>\<open>*\<close> and \<^verbatim>\<open>-\<close>\<close>

text \<open>
  Claim C6: when a token \<^verbatim>\<open>*\<close> or \<^verbatim>\<open>-\<close> is appended, it becomes a dereference or a
  negation exactly when it is the first token or the token appended before it has one
  of the kinds \<^verbatim>\<open>+ - * / ( == != &&\<close>; otherwise it keeps its kind. So \<^verbatim>\<open>-3\<close> starts
  with a negation and evaluates to \<open>-3\<close> (as a machine word), and \<^verbatim>\<open>4-3\<close> has a
  subtraction and evaluates to 1, both with success.
\<close>

theorem unary_reclassification:
  "((kind = ch CHR ''*'' \<or> kind = ch CHR ''-'') \<and> nr_token st < 32 \<longrightarrow>
      (\<exists>st'. record_token st kind substr = Inr st'
           \<and> nr_token st' = nr_token st + 1
           \<and> type (tokens st' (nr_token st)) =
               (if nr_token st = 0
                   \<or> type (tokens st (nr_token st - 1))
                       \<in> {ch CHR ''+'', ch CHR ''-'', ch CHR ''*'', ch CHR ''/'', ch CHR ''('',
                          TK_EQ, TK_NE, TK_AND}
                then (if kind = ch CHR ''*'' then TK_DEREF else TK_NEG)
                else kind)))
   \<and> (\<exists>st'. make_token st ''-3'' = Inr (True, st') \<and> kinds st' = [TK_NEG, TK_UINT])
   \<and> expr c st ''-3'' = Inr (- 3, True)
   \<and> (\<exists>st'. make_token st ''4-3'' = Inr (True, st')
          \<and> kinds st' = [TK_UINT, ch CHR ''-'', TK_UINT])
   \<and> expr c st ''4-3'' = Inr (1, True)"
proof (intro conjI impI)
  assume h: "(kind = ch CHR ''*'' \<or> kind = ch CHR ''-'') \<and> nr_token st < 32"
  then have kind: "kind \<noteq> TK_NOTYPE" "kind \<noteq> TK_HEX" "kind \<noteq> TK_UINT" "kind \<noteq> TK_REG"
    by (auto simp: tk_defs)
  from h have switch: "record_token st kind substr = append_token st kind"
    unfolding record_token_def using kind by auto
  from h show "\<exists>st'. record_token st kind substr = Inr st'
           \<and> nr_token st' = nr_token st + 1
           \<and> type (tokens st' (nr_token st)) =
               (if nr_token st = 0
                   \<or> type (tokens st (nr_token st - 1))
                       \<in> {ch CHR ''+'', ch CHR ''-'', ch CHR ''*'', ch CHR ''/'', ch CHR ''('',
                          TK_EQ, TK_NE, TK_AND}
                then (if kind = ch CHR ''*'' then TK_DEREF else TK_NEG)
                else kind)"
    unfolding switch by (auto simp: append_token_def is_unary_context_def Let_def)
next
  show "\<exists>st'. make_token st ''-3'' = Inr (True, st') \<and> kinds st' = [TK_NEG, TK_UINT]"
    by (simp add: lex_simps)
next
  show "expr c st ''-3'' = Inr (- 3, True)"
    by (simp add: expr_def lex_simps eval_simps)
next
  show "\<exists>st'. make_token st ''4-3'' = Inr (True, st')
          \<and> kinds st' = [TK_UINT, ch CHR ''-'', TK_UINT]"
    by (simp add: lex_simps)
next
  show "expr c st ''4-3'' = Inr (1, True)"
    by (simp add: expr_def lex_simps eval_simps)
qed

theorem unary_reclassification_witness:
  "\<exists>st'. record_token initial_lexer (ch CHR ''-'') ''-'' = Inr st'
        \<and> nr_token st' = 1 \<and> type (tokens st' 0) = TK_NEG"
proof -
  have h: "(ch CHR ''-'' = ch CHR ''*'' \<or> ch CHR ''-'' = ch CHR ''-'')
           \<and> nr_token initial_lexer < 32"
    by (simp add: initial_lexer_def)
  from unary_reclassification
         [where kind = "ch CHR ''-''" and st = initial_lexer and substr = "''-''",
          THEN conjunct1, THEN mp, OF h]
  show ?thesis
    by (simp add: initial_lexer_def tk_defs)
qed

subsection \<open>Binary operators\<close>

lemma eval_expr_main_operator:
  assumes "p < q" and "\<not> is_paired tks p q"
    and "find_main_operator_index tks p q = Inr r" and "0 \<le> r"
  shows "eval_expr c tks p q =
    (case eval_expr c tks (r + 1) q of
       Inl f \<Rightarrow> Inl f
     | Inr (value_right, success) \<Rightarrow>
         if \<not> success then Inr (0, False)
         else if type (tks r) = TK_DEREF then Inr (vaddr_read c value_right 4, True)
         else if type (tks r) = TK_NEG then Inr (- value_right, True)
         else
           (case eval_expr c tks p (r - 1) of
              Inl f \<Rightarrow> Inl f
            | Inr (value_left, success) \<Rightarrow>
                if \<not> success then Inr (0, False)
                else
                  (case apply_binary (type (tks r)) value_left value_right of
                     Inl f \<Rightarrow> Inl f
                   | Inr v \<Rightarrow> Inr (v, True))))"
  using assms by (subst eval_expr.simps) simp

lemma is_binary_not_unary: "is_binary t \<Longrightarrow> t \<noteq> TK_DEREF \<and> t \<noteq> TK_NEG"
  by (auto simp: is_binary_def tk_defs)

text \<open>
  Claim C7: with a binary main operator at \<open>r\<close>, the right range \<open>[r + 1, q]\<close> is
  evaluated first and the left range \<open>[p, r - 1]\<close> second. A call that does not return
  on the right decides the outcome; a failure on the right gives \<open>(0, false)\<close> whatever
  the left range holds, so the left range is not evaluated; after a success on the right
  the outcome of the left range is propagated in the same way, for every value of the
  right operand, so \<^verbatim>\<open>&&\<close> does not skip an operand; and the result of \<^verbatim>\<open>&&\<close> is 0 or 1.
\<close>

theorem binary_right_then_left:
  assumes "p < q" and "\<not> is_paired tks p q"
    and "find_main_operator_index tks p q = Inr r" and "0 \<le> r"
    and "is_binary (type (tks r))"
  shows
   "(\<forall>f. eval_expr c tks (r + 1) q = Inl f \<longrightarrow> eval_expr c tks p q = Inl f)
    \<and> (\<forall>v. eval_expr c tks (r + 1) q = Inr (v, False) \<longrightarrow> eval_expr c tks p q = Inr (0, False))
    \<and> (\<forall>vr. eval_expr c tks (r + 1) q = Inr (vr, True) \<longrightarrow>
         (\<forall>f. eval_expr c tks p (r - 1) = Inl f \<longrightarrow> eval_expr c tks p q = Inl f)
       \<and> (\<forall>v. eval_expr c tks p (r - 1) = Inr (v, False) \<longrightarrow> eval_expr c tks p q = Inr (0, False))
       \<and> (\<forall>vl. eval_expr c tks p (r - 1) = Inr (vl, True) \<longrightarrow>
            eval_expr c tks p q =
              (case apply_binary (type (tks r)) vl vr of Inl f \<Rightarrow> Inl f | Inr v \<Rightarrow> Inr (v, True))
          \<and> (type (tks r) = TK_AND \<longrightarrow>
               eval_expr c tks p q = Inr (if vl \<noteq> 0 \<and> vr \<noteq> 0 then 1 else 0, True))))"
proof -
  note eq = eval_expr_main_operator [OF assms(1-4), of c]
  from assms(5) have nu: "type (tks r) \<noteq> TK_DEREF" "type (tks r) \<noteq> TK_NEG"
    by (simp_all add: is_binary_not_unary)
  have and_op: "apply_binary TK_AND vl vr = Inr (if vl \<noteq> 0 \<and> vr \<noteq> 0 then 1 else 0)"
    for vl vr
    by (simp add: apply_binary_def tk_defs)
  show ?thesis
    unfolding eq using nu by (auto simp: and_op)
qed

text \<open>
  Two runs. In \<^verbatim>\<open>(1/0)&&0\<close> the right operand of \<^verbatim>\<open>&&\<close> is 0 and the left operand is
  evaluated all the same: its division by zero is the outcome. In \<^verbatim>\<open>++\<close> the right
  range of the second \<^verbatim>\<open>+\<close> is empty and fails; the result is \<open>(0, false)\<close> although
  the left range, the single token \<^verbatim>\<open>+\<close>, would fail the assertion of the single-token
  case.
\<close>

theorem binary_right_then_left_witness:
  "eval_expr no_collab tokens_and_right_zero 6 6 = Inr (0, True)
   \<and> eval_expr no_collab tokens_and_right_zero 0 4 = Inl Undefined_behaviour
   \<and> eval_expr no_collab tokens_and_right_zero 0 6 = Inl Undefined_behaviour
   \<and> eval_expr no_collab tokens_plus_plus 2 1 = Inr (0, False)
   \<and> eval_expr no_collab tokens_plus_plus 0 0 = Inl Assertion_failed
   \<and> eval_expr no_collab tokens_plus_plus 0 1 = Inr (0, False)"
proof -
  let ?A = tokens_and_right_zero and ?P = tokens_plus_plus
  have a1: "(0::int) < 6" and a4: "(0::int) \<le> 5" by simp_all
  have a2: "\<not> is_paired ?A 0 6"
    by (simp add: eval_simps example_simps tk_defs)
  have a3: "find_main_operator_index ?A 0 6 = Inr 5"
    by (simp add: eval_simps example_simps tk_defs)
  have a5: "is_binary (type (?A 5))"
    by (simp add: is_binary_def example_simps)
  have right: "eval_expr no_collab ?A 6 6 = Inr (0, True)"
    by (simp add: eval_simps example_simps tk_defs)
  have left: "eval_expr no_collab ?A 0 4 = Inl Undefined_behaviour"
    by (simp add: eval_simps example_simps tk_defs)
  from binary_right_then_left [OF a1 a2 a3 a4 a5, of no_collab] right left
  have whole: "eval_expr no_collab ?A 0 6 = Inl Undefined_behaviour"
    by simp
  have p1: "(0::int) < 1" and p4: "(0::int) \<le> 1" by simp_all
  have p2: "\<not> is_paired ?P 0 1"
    by (simp add: eval_simps example_simps tk_defs)
  have p3: "find_main_operator_index ?P 0 1 = Inr 1"
    by (simp add: eval_simps example_simps tk_defs)
  have p5: "is_binary (type (?P 1))"
    by (simp add: is_binary_def example_simps)
  have empty: "eval_expr no_collab ?P 2 1 = Inr (0, False)"
    by (simp add: eval_simps)
  have single: "eval_expr no_collab ?P 0 0 = Inl Assertion_failed"
    by (simp add: eval_simps example_simps tk_defs)
  from binary_right_then_left [OF p1 p2 p3 p4 p5, of no_collab] empty
  have failed: "eval_expr no_collab ?P 0 1 = Inr (0, False)"
    by simp
  from right left whole empty single failed show ?thesis
    by simp
qed

subsection \<open>Division\<close>

text \<open>
  Claim C10: a division is carried out without a test of the divisor. When \<^verbatim>\<open>/\<close> is the
  main operator and both operands have been evaluated with success, the result is the
  quotient of the two machine words, with success, if the divisor is not 0; if it is 0
  the call runs into the undefined division of C, and in neither case does it return
  with \<^verbatim>\<open>*success\<close> false.
\<close>

theorem division_unchecked:
  assumes "p < q" and "\<not> is_paired tks p q"
    and "find_main_operator_index tks p q = Inr r" and "0 \<le> r"
    and "type (tks r) = ch CHR ''/''"
    and "eval_expr c tks (r + 1) q = Inr (vr, True)"
    and "eval_expr c tks p (r - 1) = Inr (vl, True)"
  shows "eval_expr c tks p q =
           (if vr = 0 then Inl Undefined_behaviour else Inr (vl div vr, True))
         \<and> (\<forall>v. eval_expr c tks p q \<noteq> Inr (v, False))"
  by (simp add: eval_expr_main_operator [OF assms(1-4), of c] assms(5-7) apply_binary_def
      tk_defs)

theorem division_unchecked_witness:
  "eval_expr no_collab tokens_div_zero 2 2 = Inr (0, True)
   \<and> eval_expr no_collab tokens_div_zero 0 0 = Inr (1, True)
   \<and> eval_expr no_collab tokens_div_zero 0 2 = Inl Undefined_behaviour"
proof -
  let ?D = tokens_div_zero
  have d1: "(0::int) < 2" and d4: "(0::int) \<le> 1" by simp_all
  have d2: "\<not> is_paired ?D 0 2"
    by (simp add: eval_simps example_simps tk_defs)
  have d3: "find_main_operator_index ?D 0 2 = Inr 1"
    by (simp add: eval_simps example_simps tk_defs)
  have d5: "type (?D 1) = ch CHR ''/''"
    by (simp add: example_simps)
  have right: "eval_expr no_collab ?D (1 + 1) 2 = Inr (0, True)"
    by (simp add: eval_simps example_simps tk_defs)
  have left: "eval_expr no_collab ?D 0 (1 - 1) = Inr (1, True)"
    by (simp add: eval_simps example_simps tk_defs)
  from division_unchecked [OF d1 d2 d3 d4 d5 right left]
  have "eval_expr no_collab ?D 0 2 = Inl Undefined_behaviour"
    by simp
  with right left show ?thesis
    by simp
qed

end
